theory Spec2Isabelle
  imports Main "HOL-Library.Word"
begin

unbundle bit_operations_syntax

section \<open>The configuration loader of sniproxy\<close>

text \<open>
  The development follows the package \<open>config\<close> as the file \<open>src/unnamed/part_000\<close> has it (a
  route carries a \<open>Backend\<close> and an \<open>ACME\<close> descriptor, the host matchers are anchored), and
  \<open>src/main.go\<close>. The file \<open>src/config/config.go\<close> is another state of the same package: its
  route holds the address and the PROXY variant as fields, its loader knows no \<open>acme\<close>
  directive and reads \<open>send-proxy\<close> and \<open>send-proxy-v2\<close> as directives of the route, and its
  \<open>domain2Regex\<close> adds no anchors; the loops over the domains and over the \<open>deny\<close> and \<open>allow\<close>
  directives, the default deny, \<open>parseRange\<close> and \<open>ReadFile\<close> are the same text in both. Of
  that file the translation of a domain is modelled, with the suffix \<open>_unanchored\<close>.

  Go strings are byte strings: \<open>string\<close> is \<open>char list\<close> and a \<open>char\<close> is one byte.
  \<open>log.Fatal\<close> prints its message and ends the process with status 1; an index out of
  range panics and ends it with status 2. Both are results of the model.
\<close>

subsection \<open>Process termination\<close>

datatype abort = Fatal string | Panic string

fun exit_status :: "abort \<Rightarrow> nat" where
  "exit_status (Fatal msg) = 1"
| "exit_status (Panic msg) = 2"

subsection \<open>Data model\<close>

type_synonym byte = "8 word"

text \<open>\<open>net.IP\<close> and \<open>net.IPMask\<close> are byte slices; \<open>nil\<close> is the empty list.\<close>

type_synonym IP = "byte list"

record IPNet =
  IP :: IP
  Mask :: "byte list"

text \<open>
  Modelled from the spec: the type \<open>Directive\<close> is declared in the lexer and parser file of the
  package, which is not part of the sources at hand. The loader reads its three fields
  \<open>Name\<close>, \<open>Args\<close> and \<open>Directives\<close>: a directive has a name, arguments and a nested block.
\<close>

datatype Directive = Directive (Name: string) (Args: "string list") (Directives: "Directive list")

definition ProxyNone :: nat where "ProxyNone = 0"
definition ProxyV1 :: nat where "ProxyV1 = 1"
definition ProxyV2 :: nat where "ProxyV2 = 2"

record Backend =
  Address :: string
  SendProxy :: nat

text \<open>
  A route; \<open>'rx\<close> is the type of compiled regular expressions. The pointers \<open>Backend\<close> and
  \<open>ACME\<close> are \<open>nil\<close> until a directive sets them.
\<close>

record 'rx Route =
  Domains :: "'rx list"
  Backend :: "Backend option"
  ACME :: "Backend option"
  Deny :: "IPNet list"
  Allow :: "IPNet list"

record 'rx Config =
  Routes :: "'rx Route list"

subsection \<open>The Go standard library\<close>

text \<open>
  The loader calls \<open>regexp.Compile\<close>, \<open>net.ParseCIDR\<close>, \<open>net.ParseIP\<close> and \<open>os.Open\<close>, and
  \<open>main\<close> formats a message with the verbs \<open>%q\<close> and \<open>%s\<close>. These are parameters of the
  model: \<open>'e\<close> is the type of Go's \<open>error\<close> values, \<open>Inl\<close> and \<open>None\<close> stand for a non-nil
  error and for a nil result, \<open>Open\<close> gives the content of the file it opens, \<open>Quote\<close> is the
  quoting of \<open>%q\<close> and \<open>Error\<close> the text of an error. Every theorem about the loader holds
  for all of them, whatever they accept.
\<close>

record ('e, 'rx) golib =
  Compile :: "string \<Rightarrow> 'e + 'rx"
  ParseCIDR :: "string \<Rightarrow> IPNet option"
  ParseIP :: "string \<Rightarrow> IP option"
  Open :: "string \<Rightarrow> 'e + string"
  Quote :: "string \<Rightarrow> string"
  Error :: "'e \<Rightarrow> string"

text \<open>\<open>strings.Split(s, sep)\<close> for a separator of one byte, as the loader calls it with \<open>","\<close>.\<close>

fun Split :: "string \<Rightarrow> char \<Rightarrow> string list" where
  "Split [] sep = [[]]"
| "Split (c # cs) sep =
     (if c = sep then [] # Split cs sep
      else (case Split cs sep of [] \<Rightarrow> [[c]] | x # xs \<Rightarrow> (c # x) # xs))"

text \<open>\<open>IP.To4\<close>: a four-byte address is itself, an IPv4-mapped sixteen-byte address is its last
  four bytes, anything else is \<open>nil\<close>.\<close>

definition To4 :: "IP \<Rightarrow> IP option" where
  "To4 ip =
     (if length ip = 4 then Some ip
      else if length ip = 16 \<and> take 10 ip = replicate 10 0 \<and> ip ! 10 = 0xff \<and> ip ! 11 = 0xff
      then Some (drop 12 ip)
      else None)"

text \<open>\<open>net.CIDRMask(ones, bits)\<close>: \<open>ones\<close> one-bits followed by zero-bits, \<open>bits div 8\<close> bytes
  long; \<open>nil\<close> when \<open>bits\<close> is neither 32 nor 128 or \<open>ones\<close> is out of range.\<close>

fun mask_bytes :: "nat \<Rightarrow> nat \<Rightarrow> byte list" where
  "mask_bytes 0 n = []"
| "mask_bytes (Suc l) n =
     (if n \<ge> 8 then 0xff # mask_bytes l (n - 8)
      else (NOT (drop_bit n (0xff :: byte))) # mask_bytes l 0)"

definition CIDRMask :: "int \<Rightarrow> int \<Rightarrow> byte list" where
  "CIDRMask ones bits =
     (if bits \<noteq> 32 \<and> bits \<noteq> 128 then []
      else if ones < 0 \<or> ones > bits then []
      else mask_bytes (nat (bits div 8)) (nat ones))"

text \<open>\<open>IPNet.Contains\<close>, with its helper \<open>networkNumberAndMask\<close>: the network number and the
  address are brought to four bytes when they are IPv4, and compared under the mask.\<close>

definition networkNumberAndMask :: "IPNet \<Rightarrow> IP \<times> byte list" where
  "networkNumberAndMask n =
     (case (case To4 (IP n) of
              Some v4 \<Rightarrow> Some v4
            | None \<Rightarrow> if length (IP n) \<noteq> 16 then None else Some (IP n)) of
        None \<Rightarrow> ([], [])
      | Some ip \<Rightarrow>
          (let m = Mask n
           in if length m = 4 then (if length ip \<noteq> 4 then ([], []) else (ip, m))
              else if length m = 16 then (if length ip = 4 then (ip, drop 12 m) else (ip, m))
              else ([], [])))"

definition Contains :: "IPNet \<Rightarrow> IP \<Rightarrow> bool" where
  "Contains n ip =
     (case networkNumberAndMask n of
        (nn, m) \<Rightarrow>
          (let ip' = (case To4 ip of Some x \<Rightarrow> x | None \<Rightarrow> ip)
           in if length ip' \<noteq> length nn then False
              else list_all (\<lambda>i. (nn ! i) AND (m ! i) = (ip' ! i) AND (m ! i)) [0..<length ip']))"

subsection \<open>Translating a domain pattern\<close>

text \<open>
  \<open>domain2Regex\<close> builds the text of a regular expression and compiles it. Its loop ranges
  over the runes of the domain, as Go decodes UTF-8: an ASCII byte is a rune, a well-formed
  sequence of two to four bytes is a rune, and any other byte is the rune \<open>U+FFFD\<close> of width
  one. \<open>runes\<close> lists the runes of a string, each as the bytes that \<open>string(r)\<close> gives back.
\<close>

definition in_range :: "nat \<Rightarrow> nat \<Rightarrow> char \<Rightarrow> bool" where
  "in_range lo hi c = (lo \<le> of_char c \<and> (of_char c :: nat) \<le> hi)"

text \<open>The leading bytes of longer sequences: the length of the sequence and the range in
  which its second byte must lie.\<close>

definition first_byte :: "char \<Rightarrow> (nat \<times> nat \<times> nat) option" where
  "first_byte c =
     (if in_range 0xC2 0xDF c then Some (2, 0x80, 0xBF)
      else if in_range 0xE0 0xE0 c then Some (3, 0xA0, 0xBF)
      else if in_range 0xE1 0xEC c then Some (3, 0x80, 0xBF)
      else if in_range 0xED 0xED c then Some (3, 0x80, 0x9F)
      else if in_range 0xEE 0xEF c then Some (3, 0x80, 0xBF)
      else if in_range 0xF0 0xF0 c then Some (4, 0x90, 0xBF)
      else if in_range 0xF1 0xF3 c then Some (4, 0x80, 0xBF)
      else if in_range 0xF4 0xF4 c then Some (4, 0x80, 0x8F)
      else None)"

text \<open>The width of the well-formed rune at the head of a string, \<open>None\<close> when the head byte
  begins none.\<close>

definition rune_width :: "string \<Rightarrow> nat option" where
  "rune_width s =
     (case s of
        [] \<Rightarrow> None
      | c # t \<Rightarrow>
          if in_range 0 0x7F c then Some 1
          else (case first_byte c of
                  None \<Rightarrow> None
                | Some (sz, lo, hi) \<Rightarrow>
                    if length s < sz then None
                    else if \<not> in_range lo hi (s ! 1) then None
                    else if sz \<le> 2 then Some 2
                    else if \<not> in_range 0x80 0xBF (s ! 2) then None
                    else if sz \<le> 3 then Some 3
                    else if \<not> in_range 0x80 0xBF (s ! 3) then None
                    else Some 4))"

lemma rune_width_positive: "rune_width s = Some w \<Longrightarrow> 0 < w"
  by (auto simp: rune_width_def split: list.splits if_splits option.splits)

definition RuneError :: string where
  "RuneError = [CHR 0xEF, CHR 0xBF, CHR 0xBD]"

function runes :: "string \<Rightarrow> string list" where
  "runes [] = []"
| "runes (c # t) =
     (case rune_width (c # t) of
        None \<Rightarrow> RuneError # runes t
      | Some w \<Rightarrow> take w (c # t) # runes (drop w (c # t)))"
  by pat_completeness auto
termination
  by (relation "measure length") (auto dest: rune_width_positive)

definition regex_piece :: "string \<Rightarrow> string" where
  "regex_piece r =
     (if r = ''*'' then ''.*''
      else if r = ''.'' then [CHR 0x5C, CHR ''.'']
      else r)"

definition domain2Regex_text :: "string \<Rightarrow> string" where
  "domain2Regex_text domain =
     foldl (\<lambda>regex r. regex @ regex_piece r) ''^'' (runes domain) @ ''$''"

definition domain2Regex :: "('e, 'rx) golib \<Rightarrow> string \<Rightarrow> 'e + 'rx" where
  "domain2Regex lib domain = Compile lib (domain2Regex_text domain)"



subsection \<open>Subnets\<close>

definition parseRange :: "('e, 'rx) golib \<Rightarrow> string \<Rightarrow> abort + IPNet" where
  "parseRange lib subnet =
     (case ParseCIDR lib subnet of
        Some ipnet \<Rightarrow> Inr ipnet
      | None \<Rightarrow>
          (case ParseIP lib subnet of
             None \<Rightarrow> Inl (Fatal (''Could not parse subnet '' @ subnet))
           | Some ip \<Rightarrow>
               (case To4 ip of
                  Some v4 \<Rightarrow> Inr \<lparr>IP = ip, Mask = CIDRMask 32 32\<rparr>
                | None \<Rightarrow> Inr \<lparr>IP = ip, Mask = CIDRMask 128 128\<rparr>)))"

text \<open>The loop \<open>for _, subnet := range strings.Split(...)\<close> that appends each parsed subnet
  to a list and stops at the first fatal error.\<close>

fun append_ranges :: "('e, 'rx) golib \<Rightarrow> IPNet list \<Rightarrow> string list \<Rightarrow> abort + IPNet list" where
  "append_ranges lib acc [] = Inr acc"
| "append_ranges lib acc (subnet # rest) =
     (case parseRange lib subnet of
        Inl e \<Rightarrow> Inl e
      | Inr ipnet \<Rightarrow> append_ranges lib (acc @ [ipnet]) rest)"

subsection \<open>Backends\<close>

fun backend_directives :: "Backend \<Rightarrow> Directive list \<Rightarrow> abort + Backend" where
  "backend_directives backend [] = Inr backend"
| "backend_directives backend (d # ds) =
     (if Name d = ''send-proxy'' then
        (if length (Args d) > 0 then Inl (Fatal ''Invalid send-proxy directive'')
         else backend_directives (backend\<lparr>SendProxy := ProxyV1\<rparr>) ds)
      else if Name d = ''send-proxy-v2'' then
        (if length (Args d) > 0 then Inl (Fatal ''Invalid send-proxy directive'')
         else backend_directives (backend\<lparr>SendProxy := ProxyV2\<rparr>) ds)
      else backend_directives backend ds)"

definition parseBackend :: "Directive \<Rightarrow> abort + Backend" where
  "parseBackend directive =
     (case Args directive of
        [] \<Rightarrow> Inl (Panic ''index out of range [0] with length 0'')
      | a # _ \<Rightarrow> backend_directives \<lparr>Address = a, SendProxy = ProxyNone\<rparr> (Directives directive))"

subsection \<open>Routes\<close>

text \<open>The loop over the comma-separated domains of a route's name.\<close>

fun route_domains :: "('e, 'rx) golib \<Rightarrow> 'rx Route \<Rightarrow> string list \<Rightarrow> abort + 'rx Route" where
  "route_domains lib route [] = Inr route"
| "route_domains lib route (domain # rest) =
     (case domain2Regex lib domain of
        Inl err \<Rightarrow> Inl (Fatal (''Invalid domain: '' @ domain))
      | Inr rgp \<Rightarrow> route_domains lib (route\<lparr>Domains := Domains route @ [rgp]\<rparr>) rest)"

text \<open>One turn of the loop over the directives of a route's block: the \<open>switch\<close>.\<close>

definition route_directive :: "('e, 'rx) golib \<Rightarrow> 'rx Route \<Rightarrow> Directive \<Rightarrow> abort + 'rx Route" where
  "route_directive lib route dir =
     (if Name dir = ''backend'' then
        (if length (Args dir) \<noteq> 1 then Inl (Fatal ''Invalid backend directive'')
         else (case parseBackend dir of
                 Inl e \<Rightarrow> Inl e
               | Inr b \<Rightarrow> Inr (route\<lparr>Backend := Some b\<rparr>)))
      else if Name dir = ''acme'' then
        (if length (Args dir) \<noteq> 1 then Inl (Fatal ''Invalid acme directive'')
         else (case parseBackend dir of
                 Inl e \<Rightarrow> Inl e
               | Inr b \<Rightarrow> Inr (route\<lparr>ACME := Some b\<rparr>)))
      else if Name dir = ''deny'' then
        (if length (Args dir) \<noteq> 1 then Inl (Fatal ''Invalid deny directive'')
         else (case append_ranges lib (Deny route) (Split (Args dir ! 0) CHR '','') of
                 Inl e \<Rightarrow> Inl e
               | Inr ds \<Rightarrow> Inr (route\<lparr>Deny := ds\<rparr>)))
      else if Name dir = ''allow'' then
        (if length (Args dir) \<noteq> 1 then Inl (Fatal ''Invalid allow directive'')
         else (case append_ranges lib (Allow route) (Split (Args dir ! 0) CHR '','') of
                 Inl e \<Rightarrow> Inl e
               | Inr as \<Rightarrow> Inr (route\<lparr>Allow := as\<rparr>)))
      else Inr route)"

fun route_directives :: "('e, 'rx) golib \<Rightarrow> 'rx Route \<Rightarrow> Directive list \<Rightarrow> abort + 'rx Route" where
  "route_directives lib route [] = Inr route"
| "route_directives lib route (dir # rest) =
     (case route_directive lib route dir of
        Inl e \<Rightarrow> Inl e
      | Inr route' \<Rightarrow> route_directives lib route' rest)"

text \<open>The values of \<open>net.ParseCIDR("0.0.0.0/0")\<close> and \<open>net.ParseCIDR("::/0")\<close>, whose errors the
  loader discards: the zero address with the zero mask, of four and of sixteen bytes.\<close>

definition all4 :: IPNet where
  "all4 = \<lparr>IP = replicate 4 0, Mask = CIDRMask 0 32\<rparr>"

definition all6 :: IPNet where
  "all6 = \<lparr>IP = replicate 16 0, Mask = CIDRMask 0 128\<rparr>"

definition default_deny :: "'rx Route \<Rightarrow> 'rx Route" where
  "default_deny route =
     (if length (Allow route) > 0 then route\<lparr>Deny := (Deny route @ [all4]) @ [all6]\<rparr>
      else route)"

definition empty_Route :: "'rx Route" where
  "empty_Route = \<lparr>Domains = [], Backend = None, ACME = None, Deny = [], Allow = []\<rparr>"

text \<open>The body of the outer loop of \<open>parse\<close>: the route built from one top-level directive.
  The source appends the pointer to the new route to \<open>c.Routes\<close> before it fills the route in;
  the model appends the route once it is built, which is the same list when the loop goes on
  and makes no difference when the process ends.\<close>

definition parse_route :: "('e, 'rx) golib \<Rightarrow> Directive \<Rightarrow> abort + 'rx Route" where
  "parse_route lib directive =
     (case route_domains lib empty_Route (Split (Name directive) CHR '','') of
        Inl e \<Rightarrow> Inl e
      | Inr route \<Rightarrow>
          (case route_directives lib route (Directives directive) of
             Inl e \<Rightarrow> Inl e
           | Inr route' \<Rightarrow> Inr (default_deny route')))"

fun parse_directives :: "('e, 'rx) golib \<Rightarrow> 'rx Config \<Rightarrow> Directive list \<Rightarrow> abort + 'rx Config" where
  "parse_directives lib c [] = Inr c"
| "parse_directives lib c (directive # rest) =
     (case parse_route lib directive of
        Inl e \<Rightarrow> Inl e
      | Inr route \<Rightarrow> parse_directives lib (c\<lparr>Routes := Routes c @ [route]\<rparr>) rest)"

definition parse :: "('e, 'rx) golib \<Rightarrow> 'rx Config \<Rightarrow> Directive \<Rightarrow> abort + 'rx Config" where
  "parse lib c root = parse_directives lib c (Directives root)"

subsection \<open>Regular expressions\<close>

text \<open>
  A model of the part of Go's package \<open>regexp\<close> that the translation of a domain pattern
  reaches: the assertions \<open>^\<close> and \<open>$\<close> (beginning and end of the text, as the flags of
  \<open>regexp.Compile\<close> set them), a literal byte, an escaped punctuation byte, a literal repeated
  by \<open>*\<close>, \<open>+\<close> or \<open>?\<close> (greedy or not), and \<open>.*\<close>, where \<open>.\<close> is any character but a
  newline. Two repetition operators in a row are the error \<open>ErrInvalidRepeatOp\<close>, a
  repetition operator at the start is \<open>ErrMissingRepeatArgument\<close>. Every other expression
  (groups, alternation, classes, counted repetition, a lone \<open>.\<close>, a repeated assertion,
  escapes of letters and digits, bytes from 128 on) is outside the model: \<open>regexp_Compile\<close>
  is \<open>None\<close> there and nothing is claimed.
\<close>

datatype ErrorCode = ErrInvalidRepeatOp | ErrMissingRepeatArgument

datatype atom = Literal char | AnyCharNotNL

datatype item = OpBeginText | OpEndText | OpOne atom | OpStar atom | OpPlus atom | OpQuest atom

type_synonym regexp = "item list"

definition is_ascii :: "char \<Rightarrow> bool" where
  "is_ascii c = (of_char c < (128 :: nat))"

definition isalnum :: "char \<Rightarrow> bool" where
  "isalnum c =
     (let n = (of_char c :: nat)
      in (48 \<le> n \<and> n \<le> 57) \<or> (65 \<le> n \<and> n \<le> 90) \<or> (97 \<le> n \<and> n \<le> 122))"

definition is_repeat_op :: "char \<Rightarrow> bool" where
  "is_repeat_op c = (c = CHR ''*'' \<or> c = CHR ''+'' \<or> c = CHR ''?'')"

text \<open>The bytes with a meaning of their own in the syntax (those \<open>regexp.QuoteMeta\<close> escapes).\<close>

definition is_special :: "char \<Rightarrow> bool" where
  "is_special c =
     (c \<in> set [CHR 0x5C, CHR ''.'', CHR ''+'', CHR ''*'', CHR ''?'', CHR ''('', CHR '')'',
                CHR ''|'', CHR ''['', CHR '']'', CHR ''{'', CHR ''}'', CHR ''^'', CHR ''$''])"

definition starts_with_repeat :: "string \<Rightarrow> bool" where
  "starts_with_repeat t = (case t of [] \<Rightarrow> False | c # _ \<Rightarrow> is_repeat_op c \<or> c = CHR ''{'')"

definition repeat_of :: "char \<Rightarrow> atom \<Rightarrow> item" where
  "repeat_of c a = (if c = CHR ''*'' then OpStar a else if c = CHR ''+'' then OpPlus a else OpQuest a)"

text \<open>What follows an atom: no operator, or one operator with an optional \<open>?\<close> that makes it
  non-greedy; a further operator is an error. A brace may open a counted repetition, which is
  outside the model.\<close>

definition after_atom :: "atom \<Rightarrow> string \<Rightarrow> (ErrorCode + item \<times> string) option" where
  "after_atom a t =
     (case t of
        [] \<Rightarrow> Some (Inr (OpOne a, []))
      | c # u \<Rightarrow>
          if c = CHR ''{'' then None
          else if is_repeat_op c then
            (let v = (case u of [] \<Rightarrow> [] | q # w \<Rightarrow> if q = CHR ''?'' then w else u)
             in (case v of
                   [] \<Rightarrow> Some (Inr (repeat_of c a, v))
                 | d # _ \<Rightarrow>
                     if is_repeat_op d then Some (Inl ErrInvalidRepeatOp)
                     else if d = CHR ''{'' then None
                     else Some (Inr (repeat_of c a, v))))
          else Some (Inr (OpOne a, t)))"

definition next_item :: "string \<Rightarrow> (ErrorCode + item \<times> string) option" where
  "next_item s =
     (case s of
        [] \<Rightarrow> None
      | c # t \<Rightarrow>
          if c = CHR ''^'' then (if starts_with_repeat t then None else Some (Inr (OpBeginText, t)))
          else if c = CHR ''$'' then (if starts_with_repeat t then None else Some (Inr (OpEndText, t)))
          else if c = CHR ''.'' then
            (case t of
               [] \<Rightarrow> None
             | r # _ \<Rightarrow>
                 if r = CHR ''*'' then
                   (case after_atom AnyCharNotNL t of
                      Some (Inr (OpStar a, rest)) \<Rightarrow> Some (Inr (OpStar a, rest))
                    | Some (Inl e) \<Rightarrow> Some (Inl e)
                    | _ \<Rightarrow> None)
                 else None)
          else if c = CHR 0x5C then
            (case t of
               [] \<Rightarrow> None
             | e # u \<Rightarrow>
                 if is_ascii e \<and> \<not> isalnum e \<and> e \<noteq> CHR ''_'' then after_atom (Literal e) u
                 else None)
          else if is_special c \<or> \<not> is_ascii c then None
          else after_atom (Literal c) t)"

lemma after_atom_shorter: "after_atom a t = Some (Inr (it, rest)) \<Longrightarrow> length rest \<le> length t"
  by (auto simp: after_atom_def Let_def split: list.splits if_splits)

lemma next_item_shorter: "next_item s = Some (Inr (it, rest)) \<Longrightarrow> length rest < length s"
  by (auto simp: next_item_def split: list.splits if_splits option.splits sum.splits item.splits
      dest: after_atom_shorter)

function parse_items :: "string \<Rightarrow> (ErrorCode + regexp) option" where
  "parse_items [] = Some (Inr [])"
| "parse_items (c # t) =
     (case next_item (c # t) of
        None \<Rightarrow> None
      | Some (Inl e) \<Rightarrow> Some (Inl e)
      | Some (Inr (it, rest)) \<Rightarrow>
          (case parse_items rest of
             None \<Rightarrow> None
           | Some (Inl e) \<Rightarrow> Some (Inl e)
           | Some (Inr its) \<Rightarrow> Some (Inr (it # its))))"
  by pat_completeness auto
termination
  by (relation "measure length") (auto dest: next_item_shorter)

definition regexp_Compile :: "string \<Rightarrow> (ErrorCode + regexp) option" where
  "regexp_Compile expr =
     (if \<not> list_all is_ascii expr then None
      else if (case expr of [] \<Rightarrow> False | c # _ \<Rightarrow> is_repeat_op c)
      then Some (Inl ErrMissingRepeatArgument)
      else parse_items expr)"

text \<open>
  Matching. \<open>match_at re b s\<close>: the items match a prefix of the rest \<open>s\<close> of the text, where
  \<open>b\<close> says that the rest is the whole text. \<open>MatchString\<close> looks for a match that begins
  anywhere. A text is a byte string; the only item that reads a character of any kind is
  \<open>.*\<close>, which takes any run of bytes without a newline, as it takes any run of characters.
\<close>

fun atom_ok :: "atom \<Rightarrow> char \<Rightarrow> bool" where
  "atom_ok (Literal c) x = (x = c)"
| "atom_ok AnyCharNotNL x = (x \<noteq> CHR 0x0A)"

fun match_at :: "regexp \<Rightarrow> bool \<Rightarrow> string \<Rightarrow> bool" where
  "match_at [] b s = True"
| "match_at (OpBeginText # re) b s = (b \<and> match_at re b s)"
| "match_at (OpEndText # re) b s = (s = [] \<and> match_at re b s)"
| "match_at (OpOne a # re) b [] = False"
| "match_at (OpOne a # re) b (x # xs) = (atom_ok a x \<and> match_at re False xs)"
| "match_at (OpStar a # re) b [] = match_at re b []"
| "match_at (OpStar a # re) b (x # xs) =
     (match_at re b (x # xs) \<or> (atom_ok a x \<and> match_at (OpStar a # re) False xs))"
| "match_at (OpPlus a # re) b [] = False"
| "match_at (OpPlus a # re) b (x # xs) = (atom_ok a x \<and> match_at (OpStar a # re) False xs)"
| "match_at (OpQuest a # re) b [] = match_at re b []"
| "match_at (OpQuest a # re) b (x # xs) =
     (match_at re b (x # xs) \<or> (atom_ok a x \<and> match_at re False xs))"

fun search :: "regexp \<Rightarrow> bool \<Rightarrow> string \<Rightarrow> bool" where
  "search re b [] = match_at re b []"
| "search re b (x # xs) = (match_at re b (x # xs) \<or> search re False xs)"

definition MatchString :: "regexp \<Rightarrow> string \<Rightarrow> bool" where
  "MatchString re s = search re True s"

subsection \<open>Reading the file, and startup\<close>

text \<open>
  \<open>ReadFile\<close> opens the file and hands it to the lexer and the parser of the package
  (\<open>newLexer\<close>, \<open>parseDirective\<close>), which are not part of the sources at hand: their
  composition is the parameter \<open>parseDirective\<close>, from the content of the file to the root
  directive, free to end the process. The result of \<open>ReadFile\<close> is the configuration and
  the error it returns (\<open>None\<close> for \<open>nil\<close>), unless the process ended.
\<close>

definition ReadFile ::
  "('e, 'rx) golib \<Rightarrow> (string \<Rightarrow> abort + Directive) \<Rightarrow> 'rx Config \<Rightarrow> string
     \<Rightarrow> abort + 'rx Config \<times> 'e option" where
  "ReadFile lib parseDirective c file =
     (case Open lib file of
        Inl err \<Rightarrow> Inr (c, Some err)
      | Inr f \<Rightarrow>
          (case parseDirective f of
             Inl a \<Rightarrow> Inl a
           | Inr root \<Rightarrow>
               (case parse lib c root of
                  Inl a \<Rightarrow> Inl a
                | Inr c' \<Rightarrow> Inr (c', None))))"

text \<open>
  \<open>main\<close> up to its two listeners, for the values \<open>conf\<close> and \<open>bind\<close> of the flags: either the
  process has ended, or it goes on to listen with the configuration it loaded, the redirect
  listener on \<open>:80\<close> with the handler \<open>newRedirect bind\<close> and the proxy on \<open>bind\<close>.
\<close>

definition main ::
  "('e, 'rx) golib \<Rightarrow> (string \<Rightarrow> abort + Directive) \<Rightarrow> string \<Rightarrow> string
     \<Rightarrow> abort + 'rx Config \<times> string" where
  "main lib parseDirective conf bind =
     (if conf = [] then Inl (Fatal ''No config provided. Aborting.'')
      else (case ReadFile lib parseDirective \<lparr>Routes = []\<rparr> conf of
              Inl a \<Rightarrow> Inl a
            | Inr (c, Some err) \<Rightarrow>
                Inl (Fatal (''Could not read config '' @ Quote lib conf @ '' ('' @ Error lib err @ '')''))
            | Inr (c, None) \<Rightarrow> Inr (c, bind)))"

subsection \<open>The redirect handler\<close>








subsection \<open>The specification's host matcher\<close>










subsection \<open>An instance of the library\<close>

text \<open>
  To evaluate the loader on concrete configurations, the library is instantiated: \<open>Compile\<close>
  by the model of regular expressions (the error \<open>None\<close> stands for an expression outside the
  model, and the evaluations below use none), the other functions by excerpts of their
  tables: what they answer on a few literals, and a failure elsewhere.
\<close>

definition model_Compile :: "string \<Rightarrow> ErrorCode option + regexp" where
  "model_Compile expr =
     (case regexp_Compile expr of
        None \<Rightarrow> Inl None
      | Some (Inl e) \<Rightarrow> Inl (Some e)
      | Some (Inr re) \<Rightarrow> Inr re)"

definition example_file :: string where
  "example_file = ''example.com { backend '' @ [CHR 0x22] @ ''127.0.0.1:9000'' @ [CHR 0x22] @ '' }''"

definition model_lib :: "(ErrorCode option, regexp) golib" where
  "model_lib =
     \<lparr>Compile = model_Compile,
      ParseCIDR = map_of
        [(''10.0.0.0/8'', \<lparr>IP = [10, 0, 0, 0], Mask = [255, 0, 0, 0]\<rparr>),
         (''10.1.0.0/16'', \<lparr>IP = [10, 1, 0, 0], Mask = [255, 255, 0, 0]\<rparr>),
         (''0.0.0.0/0'', all4),
         (''::/0'', all6)],
      ParseIP = map_of
        [(''192.0.2.7'', [0, 0, 0, 0, 0, 0, 0, 0, 0, 0, 255, 255, 192, 0, 2, 7]),
         (''2001:db8::1'', [32, 1, 13, 184, 0, 0, 0, 0, 0, 0, 0, 0, 0, 0, 0, 1])],
      Open = (\<lambda>file. if file = ''sniproxy.conf'' then Inr example_file
                   else if file = ''broken.conf'' then Inr ''example.com { backend }''
                   else Inl None),
      Quote = (\<lambda>s. [CHR 0x22] @ s @ [CHR 0x22]),
      Error = (\<lambda>e. ''no such file or directory'')\<rparr>"

text \<open>An instance of the parser of the package, on the two files of the instance.\<close>

definition model_parseDirective :: "string \<Rightarrow> abort + Directive" where
  "model_parseDirective f =
     (if f = example_file
      then Inr (Directive [] []
                  [Directive ''example.com'' [] [Directive ''backend'' [''127.0.0.1:9000''] []]])
      else if f = ''example.com { backend }''
      then Inr (Directive [] [] [Directive ''example.com'' [] [Directive ''backend'' [] []]])
      else Inl (Fatal ''unexpected token''))"

subsection \<open>What a configuration declares\<close>

text \<open>
  Two notions used to state the properties of the loader. \<open>directive_ranges lib name dirs\<close>
  are the subnets that the directives called \<open>name\<close> (\<open>deny\<close> or \<open>allow\<close>) of a route's block
  declare, in order, each as \<open>parseRange\<close> reads it. \<open>content_ok lib root\<close> says that the content
  of a configuration has none of the errors the loader looks for: every domain compiles, the
  directives \<open>backend\<close>, \<open>acme\<close>, \<open>deny\<close> and \<open>allow\<close> of a route have one argument, every
  subnet is a CIDR prefix or an address, and \<open>send-proxy\<close> and \<open>send-proxy-v2\<close> in the block of
  a \<open>backend\<close> or \<open>acme\<close> have no argument.
\<close>

definition directive_ranges ::
  "('e, 'rx) golib \<Rightarrow> string \<Rightarrow> Directive list \<Rightarrow> (abort + IPNet) list" where
  "directive_ranges lib name dirs =
     concat (map (\<lambda>dir. map (parseRange lib) (Split (Args dir ! 0) CHR '',''))
                 (filter (\<lambda>dir. Name dir = name) dirs))"

definition is_proxy_directive :: "Directive \<Rightarrow> bool" where
  "is_proxy_directive x = (Name x = ''send-proxy'' \<or> Name x = ''send-proxy-v2'')"

definition proxy_children :: "Directive \<Rightarrow> Directive list" where
  "proxy_children d = filter is_proxy_directive (Directives d)"

definition backend_block_ok :: "Directive \<Rightarrow> bool" where
  "backend_block_ok dir = list_all (\<lambda>x. Args x = []) (proxy_children dir)"

definition subnet_ok :: "('e, 'rx) golib \<Rightarrow> string \<Rightarrow> bool" where
  "subnet_ok lib s = (ParseCIDR lib s \<noteq> None \<or> ParseIP lib s \<noteq> None)"

definition directive_ok :: "('e, 'rx) golib \<Rightarrow> Directive \<Rightarrow> bool" where
  "directive_ok lib dir =
     (if Name dir = ''backend'' \<or> Name dir = ''acme''
      then length (Args dir) = 1 \<and> backend_block_ok dir
      else if Name dir = ''deny'' \<or> Name dir = ''allow''
      then length (Args dir) = 1 \<and> list_all (subnet_ok lib) (Split (Args dir ! 0) CHR '','')
      else True)"

definition route_ok :: "('e, 'rx) golib \<Rightarrow> Directive \<Rightarrow> bool" where
  "route_ok lib d =
     (list_all (\<lambda>x. \<not> isl (domain2Regex lib x)) (Split (Name d) CHR '','') \<and>
      list_all (directive_ok lib) (Directives d))"

definition content_ok :: "('e, 'rx) golib \<Rightarrow> Directive \<Rightarrow> bool" where
  "content_ok lib root = list_all (route_ok lib) (Directives root)"

subsection \<open>An example configuration\<close>

text \<open>
  A configuration of two routes, as the parser of the package would hand it to the loader, and
  the \<open>Config\<close> that the loader builds from it with the instance of the library.
\<close>

definition example_root :: Directive where
  "example_root =
     Directive [] []
       [Directive ''*.a,b'' []
          [Directive ''backend'' [''h:1''] [Directive ''send-proxy'' [] []],
           Directive ''allow'' [''10.0.0.0/8,192.0.2.7''] [],
           Directive ''deny'' [''10.1.0.0/16''] [],
           Directive ''frob'' [''x'', ''y''] []],
        Directive ''c'' []
          [Directive ''acme'' [''h:2''] [],
           Directive ''deny'' [''2001:db8::1''] []]]"

definition example_config :: "regexp Config" where
  "example_config =
     \<lparr>Routes =
        [\<lparr>Domains = [[OpBeginText, OpStar AnyCharNotNL, OpOne (Literal CHR ''.''),
                       OpOne (Literal CHR ''a''), OpEndText],
                      [OpBeginText, OpOne (Literal CHR ''b''), OpEndText]],
          Backend = Some \<lparr>Address = ''h:1'', SendProxy = ProxyV1\<rparr>,
          ACME = None,
          Deny = [\<lparr>IP = [10, 1, 0, 0], Mask = [255, 255, 0, 0]\<rparr>, all4, all6],
          Allow = [\<lparr>IP = [10, 0, 0, 0], Mask = [255, 0, 0, 0]\<rparr>,
                   \<lparr>IP = [0, 0, 0, 0, 0, 0, 0, 0, 0, 0, 255, 255, 192, 0, 2, 7],
                      Mask = [255, 255, 255, 255]\<rparr>]\<rparr>,
         \<lparr>Domains = [[OpBeginText, OpOne (Literal CHR ''c''), OpEndText]],
          Backend = None,
          ACME = Some \<lparr>Address = ''h:2'', SendProxy = ProxyNone\<rparr>,
          Deny = [\<lparr>IP = [32, 1, 13, 184, 0, 0, 0, 0, 0, 0, 0, 0, 0, 0, 0, 1],
                    Mask = [255, 255, 255, 255, 255, 255, 255, 255,
                            255, 255, 255, 255, 255, 255, 255, 255]\<rparr>],
          Allow = []\<rparr>]\<rparr>"

section \<open>Properties of the loader\<close>

subsection \<open>The loops, when they succeed\<close>

lemma Split_not_Nil: "Split s sep \<noteq> []"
  by (induction s) (auto split: list.splits)

lemma route_domains_Inr:
  "route_domains lib route ds = Inr route' \<Longrightarrow>
     \<exists>rs. route' = route\<lparr>Domains := Domains route @ rs\<rparr> \<and> map (domain2Regex lib) ds = map Inr rs"
proof (induction ds arbitrary: route)
  case Nil
  then show ?case by simp
next
  case (Cons d ds)
  from Cons.prems obtain rgp where c: "domain2Regex lib d = Inr rgp"
    and r: "route_domains lib (route\<lparr>Domains := Domains route @ [rgp]\<rparr>) ds = Inr route'"
    by (auto split: sum.splits)
  from Cons.IH [OF r] obtain rs where
    "route' = route\<lparr>Domains := Domains route @ [rgp]\<rparr>\<lparr>Domains := Domains (route\<lparr>Domains := Domains route @ [rgp]\<rparr>) @ rs\<rparr>"
    and m: "map (domain2Regex lib) ds = map Inr rs" by blast
  then have "route' = route\<lparr>Domains := Domains route @ (rgp # rs)\<rparr>" by simp
  moreover have "map (domain2Regex lib) (d # ds) = map Inr (rgp # rs)" using c m by simp
  ultimately show ?case by blast
qed

lemma append_ranges_Inr:
  "append_ranges lib acc xs = Inr ys \<Longrightarrow>
     \<exists>zs. ys = acc @ zs \<and> map (parseRange lib) xs = map Inr zs"
proof (induction xs arbitrary: acc)
  case Nil
  then show ?case by simp
next
  case (Cons x xs)
  from Cons.prems obtain n where p: "parseRange lib x = Inr n"
    and r: "append_ranges lib (acc @ [n]) xs = Inr ys"
    by (auto split: sum.splits)
  from Cons.IH [OF r] obtain zs where "ys = (acc @ [n]) @ zs" and m: "map (parseRange lib) xs = map Inr zs"
    by blast
  then have "ys = acc @ (n # zs)" by simp
  moreover have "map (parseRange lib) (x # xs) = map Inr (n # zs)" using p m by simp
  ultimately show ?case by blast
qed

lemma route_directive_Inr:
  assumes "route_directive lib route dir = Inr route'"
  shows "Domains route' = Domains route"
    and "map Inr (Deny route') = map Inr (Deny route) @ directive_ranges lib ''deny'' [dir]"
    and "map Inr (Allow route') = map Inr (Allow route) @ directive_ranges lib ''allow'' [dir]"
  using assms
  by (auto simp: route_directive_def directive_ranges_def split: if_splits sum.splits
      dest!: append_ranges_Inr)

lemma directive_ranges_Cons:
  "directive_ranges lib name (d # ds) = directive_ranges lib name [d] @ directive_ranges lib name ds"
  by (simp add: directive_ranges_def)

lemma route_directives_Inr:
  "route_directives lib route dirs = Inr route' \<Longrightarrow>
     Domains route' = Domains route \<and>
     map Inr (Deny route') = map Inr (Deny route) @ directive_ranges lib ''deny'' dirs \<and>
     map Inr (Allow route') = map Inr (Allow route) @ directive_ranges lib ''allow'' dirs"
proof (induction dirs arbitrary: route)
  case Nil
  then show ?case by (simp add: directive_ranges_def)
next
  case (Cons d ds)
  from Cons.prems obtain r1 where s: "route_directive lib route d = Inr r1"
    and r: "route_directives lib r1 ds = Inr route'"
    by (auto split: sum.splits)
  note a = route_directive_Inr [OF s] and b = Cons.IH [OF r]
  show ?case
    using a b by (simp add: directive_ranges_Cons [of lib _ d ds])
qed

lemma parse_directives_Inr:
  "parse_directives lib c ds = Inr c' \<Longrightarrow>
     \<exists>rs. c' = c\<lparr>Routes := Routes c @ rs\<rparr> \<and> map (parse_route lib) ds = map Inr rs"
proof (induction ds arbitrary: c)
  case Nil
  then show ?case by simp
next
  case (Cons d ds)
  from Cons.prems obtain r where p: "parse_route lib d = Inr r"
    and q: "parse_directives lib (c\<lparr>Routes := Routes c @ [r]\<rparr>) ds = Inr c'"
    by (auto split: sum.splits)
  from Cons.IH [OF q] obtain rs where
    "c' = c\<lparr>Routes := Routes c @ [r]\<rparr>\<lparr>Routes := Routes (c\<lparr>Routes := Routes c @ [r]\<rparr>) @ rs\<rparr>"
    and m: "map (parse_route lib) ds = map Inr rs" by blast
  then have "c' = c\<lparr>Routes := Routes c @ (r # rs)\<rparr>" by simp
  moreover have "map (parse_route lib) (d # ds) = map Inr (r # rs)" using p m by simp
  ultimately show ?case by blast
qed

lemma parse_route_Inr:
  assumes "parse_route lib d = Inr r"
  shows "map Inr (Domains r) = map (domain2Regex lib) (Split (Name d) CHR '','')"
    and "Domains r \<noteq> []"
    and "map Inr (Allow r) = directive_ranges lib ''allow'' (Directives d)"
    and "map Inr (Deny r) =
           directive_ranges lib ''deny'' (Directives d) @ (if Allow r = [] then [] else [Inr all4, Inr all6])"
proof -
  from assms obtain r0 r1 where
    a: "route_domains lib empty_Route (Split (Name d) CHR '','') = Inr r0"
    and b: "route_directives lib r0 (Directives d) = Inr r1"
    and c: "r = default_deny r1"
    by (auto simp: parse_route_def split: sum.splits)
  from route_domains_Inr [OF a] obtain rs where
    r0: "r0 = empty_Route\<lparr>Domains := Domains empty_Route @ rs\<rparr>"
    and m: "map (domain2Regex lib) (Split (Name d) CHR '','') = map Inr rs" by blast
  have r0': "Domains r0 = rs" "Deny r0 = []" "Allow r0 = []"
    using r0 by (simp_all add: empty_Route_def)
  note e = route_directives_Inr [OF b]
  have d: "Domains r = rs" using c e r0' by (simp add: default_deny_def)
  show "map Inr (Domains r) = map (domain2Regex lib) (Split (Name d) CHR '','')"
    using d m by simp
  have "rs \<noteq> []" using m Split_not_Nil [of "Name d" "CHR '',''"] by auto
  then show "Domains r \<noteq> []" using d by simp
  have al: "Allow r = Allow r1" using c by (simp add: default_deny_def)
  show "map Inr (Allow r) = directive_ranges lib ''allow'' (Directives d)"
    using al e r0' by simp
  show "map Inr (Deny r) =
          directive_ranges lib ''deny'' (Directives d) @ (if Allow r = [] then [] else [Inr all4, Inr all6])"
    using c e r0' al by (simp add: default_deny_def)
qed

lemma map_eq_list_all2:
  "map f ds = map Inr rs \<Longrightarrow> (\<And>d r. f d = Inr r \<Longrightarrow> P r d) \<Longrightarrow> list_all2 P rs ds"
proof (induction ds arbitrary: rs)
  case Nil
  then show ?case by simp
next
  case (Cons d ds)
  then show ?case by (cases rs) auto
qed

subsection \<open>Which configurations load\<close>

lemma backend_directives_eq:
  "backend_directives b ds =
     (if list_all (\<lambda>x. Args x = []) (filter is_proxy_directive ds)
      then Inr (b\<lparr>SendProxy :=
                    (if filter is_proxy_directive ds = [] then SendProxy b
                     else if Name (last (filter is_proxy_directive ds)) = ''send-proxy'' then ProxyV1
                     else ProxyV2)\<rparr>)
      else Inl (Fatal ''Invalid send-proxy directive''))"
proof (induction ds arbitrary: b)
  case Nil
  then show ?case by simp
next
  case (Cons d ds)
  show ?case
  proof (cases "is_proxy_directive d")
    case False
    then have "Name d \<noteq> ''send-proxy''" "Name d \<noteq> ''send-proxy-v2''"
      by (simp_all add: is_proxy_directive_def)
    then show ?thesis using False Cons.IH [of b] by simp
  next
    case True
    show ?thesis
    proof (cases "Args d = []")
      case False
      have "backend_directives b (d # ds) = Inl (Fatal ''Invalid send-proxy directive'')"
        using True False by (auto simp: is_proxy_directive_def)
      then show ?thesis using True False by simp
    next
      case a: True
      show ?thesis
      proof (cases "Name d = ''send-proxy''")
        case True
        then have "backend_directives b (d # ds) = backend_directives (b\<lparr>SendProxy := ProxyV1\<rparr>) ds"
          using a by simp
        then show ?thesis
          using a True \<open>is_proxy_directive d\<close> Cons.IH [of "b\<lparr>SendProxy := ProxyV1\<rparr>"] by simp
      next
        case False
        with True have n: "Name d = ''send-proxy-v2''" by (simp add: is_proxy_directive_def)
        then have "backend_directives b (d # ds) = backend_directives (b\<lparr>SendProxy := ProxyV2\<rparr>) ds"
          using a by simp
        then show ?thesis
          using a n \<open>is_proxy_directive d\<close> Cons.IH [of "b\<lparr>SendProxy := ProxyV2\<rparr>"] by simp
      qed
    qed
  qed
qed

lemma parseBackend_eq:
  "length (Args d) = 1 \<Longrightarrow>
   parseBackend d =
     (if backend_block_ok d
      then Inr \<lparr>Address = Args d ! 0,
                SendProxy = (if proxy_children d = [] then ProxyNone
                             else if Name (last (proxy_children d)) = ''send-proxy'' then ProxyV1
                             else ProxyV2)\<rparr>
      else Inl (Fatal ''Invalid send-proxy directive''))"
  by (cases "Args d") (simp_all add: parseBackend_def backend_directives_eq backend_block_ok_def proxy_children_def)

lemma parseRange_ok: "subnet_ok lib s \<Longrightarrow> \<exists>n. parseRange lib s = Inr n"
  by (auto simp: subnet_ok_def parseRange_def split: option.splits)

lemma parseRange_not_ok:
  "\<not> subnet_ok lib s \<Longrightarrow> parseRange lib s = Inl (Fatal (''Could not parse subnet '' @ s))"
  by (auto simp: subnet_ok_def parseRange_def split: option.splits)

lemma append_ranges_ok:
  "list_all (subnet_ok lib) xs \<Longrightarrow> \<exists>ys. append_ranges lib acc xs = Inr ys"
proof (induction xs arbitrary: acc)
  case Nil
  then show ?case by simp
next
  case (Cons x xs)
  then obtain n where "parseRange lib x = Inr n" using parseRange_ok [of lib x] by auto
  then show ?case using Cons by simp
qed

lemma append_ranges_not_ok:
  "\<not> list_all (subnet_ok lib) xs \<Longrightarrow> \<exists>msg. append_ranges lib acc xs = Inl (Fatal msg)"
proof (induction xs arbitrary: acc)
  case Nil
  then show ?case by simp
next
  case (Cons x xs)
  show ?case
  proof (cases "subnet_ok lib x")
    case True
    then obtain n where "parseRange lib x = Inr n" using parseRange_ok [of lib x] by auto
    then show ?thesis using Cons True by simp
  next
    case False
    then show ?thesis by (simp add: parseRange_not_ok)
  qed
qed

lemma route_directive_ok:
  "directive_ok lib dir \<Longrightarrow> \<exists>route'. route_directive lib route dir = Inr route'"
proof -
  assume ok: "directive_ok lib dir"
  consider (b) "Name dir = ''backend''" | (a) "Name dir = ''acme''" | (d) "Name dir = ''deny''"
    | (l) "Name dir = ''allow''"
    | (u) "Name dir \<noteq> ''backend''" "Name dir \<noteq> ''acme''" "Name dir \<noteq> ''deny''" "Name dir \<noteq> ''allow''"
    by blast
  then show ?thesis
  proof cases
    case b
    with ok show ?thesis by (simp add: directive_ok_def route_directive_def parseBackend_eq)
  next
    case a
    with ok show ?thesis by (simp add: directive_ok_def route_directive_def parseBackend_eq)
  next
    case d
    with ok have l: "length (Args dir) = 1"
      and s: "list_all (subnet_ok lib) (Split (Args dir ! 0) CHR '','')"
      by (simp_all add: directive_ok_def)
    from append_ranges_ok [OF s, of "Deny route"] obtain ys where
      "append_ranges lib (Deny route) (Split (Args dir ! 0) CHR '','') = Inr ys" by blast
    with d l show ?thesis by (simp add: route_directive_def)
  next
    case l
    with ok have n: "length (Args dir) = 1"
      and s: "list_all (subnet_ok lib) (Split (Args dir ! 0) CHR '','')"
      by (simp_all add: directive_ok_def)
    from append_ranges_ok [OF s, of "Allow route"] obtain ys where
      "append_ranges lib (Allow route) (Split (Args dir ! 0) CHR '','') = Inr ys" by blast
    with l n show ?thesis by (simp add: route_directive_def)
  next
    case u
    then show ?thesis by (simp add: route_directive_def)
  qed
qed

lemma route_directive_not_ok:
  "\<not> directive_ok lib dir \<Longrightarrow> \<exists>msg. route_directive lib route dir = Inl (Fatal msg)"
proof -
  assume ok: "\<not> directive_ok lib dir"
  consider (b) "Name dir = ''backend''" | (a) "Name dir = ''acme''" | (d) "Name dir = ''deny''"
    | (l) "Name dir = ''allow''"
    | (u) "Name dir \<noteq> ''backend''" "Name dir \<noteq> ''acme''" "Name dir \<noteq> ''deny''" "Name dir \<noteq> ''allow''"
    by blast
  then show ?thesis
  proof cases
    case b
    with ok show ?thesis
      by (cases "length (Args dir) = 1") (auto simp: directive_ok_def route_directive_def parseBackend_eq)
  next
    case a
    with ok show ?thesis
      by (cases "length (Args dir) = 1") (auto simp: directive_ok_def route_directive_def parseBackend_eq)
  next
    case d
    show ?thesis
    proof (cases "length (Args dir) = 1")
      case True
      with ok d have "\<not> list_all (subnet_ok lib) (Split (Args dir ! 0) CHR '','')"
        by (simp add: directive_ok_def)
      from append_ranges_not_ok [OF this, of "Deny route"] obtain msg where
        "append_ranges lib (Deny route) (Split (Args dir ! 0) CHR '','') = Inl (Fatal msg)" by blast
      with d True show ?thesis by (simp add: route_directive_def)
    next
      case False
      with d show ?thesis by (simp add: route_directive_def)
    qed
  next
    case l
    show ?thesis
    proof (cases "length (Args dir) = 1")
      case True
      with ok l have "\<not> list_all (subnet_ok lib) (Split (Args dir ! 0) CHR '','')"
        by (simp add: directive_ok_def)
      from append_ranges_not_ok [OF this, of "Allow route"] obtain msg where
        "append_ranges lib (Allow route) (Split (Args dir ! 0) CHR '','') = Inl (Fatal msg)" by blast
      with l True show ?thesis by (simp add: route_directive_def)
    next
      case False
      with l show ?thesis by (simp add: route_directive_def)
    qed
  next
    case u
    with ok show ?thesis by (simp add: directive_ok_def)
  qed
qed

lemma route_directives_ok:
  "list_all (directive_ok lib) dirs \<Longrightarrow> \<exists>route'. route_directives lib route dirs = Inr route'"
proof (induction dirs arbitrary: route)
  case Nil
  then show ?case by simp
next
  case (Cons d ds)
  then obtain r1 where "route_directive lib route d = Inr r1"
    using route_directive_ok [of lib d route] by auto
  then show ?case using Cons by simp
qed

lemma route_directives_not_ok:
  "\<not> list_all (directive_ok lib) dirs \<Longrightarrow> \<exists>msg. route_directives lib route dirs = Inl (Fatal msg)"
proof (induction dirs arbitrary: route)
  case Nil
  then show ?case by simp
next
  case (Cons d ds)
  show ?case
  proof (cases "directive_ok lib d")
    case True
    then obtain r1 where "route_directive lib route d = Inr r1"
      using route_directive_ok [of lib d route] by auto
    then show ?thesis using Cons True by simp
  next
    case False
    then obtain msg where "route_directive lib route d = Inl (Fatal msg)"
      using route_directive_not_ok [of lib d route] by auto
    then show ?thesis by simp
  qed
qed

lemma route_domains_ok:
  "list_all (\<lambda>x. \<not> isl (domain2Regex lib x)) ds \<Longrightarrow> \<exists>route'. route_domains lib route ds = Inr route'"
proof (induction ds arbitrary: route)
  case Nil
  then show ?case by simp
next
  case (Cons d ds)
  then show ?case by (cases "domain2Regex lib d") auto
qed

lemma route_domains_not_ok:
  "\<not> list_all (\<lambda>x. \<not> isl (domain2Regex lib x)) ds \<Longrightarrow>
     \<exists>msg. route_domains lib route ds = Inl (Fatal msg)"
proof (induction ds arbitrary: route)
  case Nil
  then show ?case by simp
next
  case (Cons d ds)
  then show ?case by (cases "domain2Regex lib d") auto
qed

lemma parse_route_ok: "route_ok lib d \<Longrightarrow> \<exists>r. parse_route lib d = Inr r"
proof -
  assume ok: "route_ok lib d"
  then obtain r0 where a: "route_domains lib empty_Route (Split (Name d) CHR '','') = Inr r0"
    using route_domains_ok [of lib "Split (Name d) CHR '',''" empty_Route] by (auto simp: route_ok_def)
  from ok obtain r1 where "route_directives lib r0 (Directives d) = Inr r1"
    using route_directives_ok [of lib "Directives d" r0] by (auto simp: route_ok_def)
  with a show ?thesis by (simp add: parse_route_def)
qed

lemma parse_route_not_ok: "\<not> route_ok lib d \<Longrightarrow> \<exists>msg. parse_route lib d = Inl (Fatal msg)"
proof (cases "list_all (\<lambda>x. \<not> isl (domain2Regex lib x)) (Split (Name d) CHR '','')")
  case False
  then obtain msg where "route_domains lib empty_Route (Split (Name d) CHR '','') = Inl (Fatal msg)"
    using route_domains_not_ok [of lib "Split (Name d) CHR '',''" empty_Route] by blast
  then show ?thesis by (simp add: parse_route_def)
next
  case True
  assume "\<not> route_ok lib d"
  with True have n: "\<not> list_all (directive_ok lib) (Directives d)" by (simp add: route_ok_def)
  from True obtain r0 where a: "route_domains lib empty_Route (Split (Name d) CHR '','') = Inr r0"
    using route_domains_ok [of lib "Split (Name d) CHR '',''" empty_Route] by blast
  from n obtain msg where "route_directives lib r0 (Directives d) = Inl (Fatal msg)"
    using route_directives_not_ok [of lib "Directives d" r0] by blast
  with a show ?thesis by (simp add: parse_route_def)
qed

lemma parse_directives_ok:
  "list_all (route_ok lib) ds \<Longrightarrow> \<exists>c'. parse_directives lib c ds = Inr c'"
proof (induction ds arbitrary: c)
  case Nil
  then show ?case by simp
next
  case (Cons d ds)
  then obtain r where "parse_route lib d = Inr r" using parse_route_ok [of lib d] by auto
  then show ?case using Cons by simp
qed

lemma parse_directives_not_ok:
  "\<not> list_all (route_ok lib) ds \<Longrightarrow> \<exists>msg. parse_directives lib c ds = Inl (Fatal msg)"
proof (induction ds arbitrary: c)
  case Nil
  then show ?case by simp
next
  case (Cons d ds)
  show ?case
  proof (cases "route_ok lib d")
    case True
    then obtain r where "parse_route lib d = Inr r" using parse_route_ok [of lib d] by auto
    then show ?thesis using Cons True by simp
  next
    case False
    then obtain msg where "parse_route lib d = Inl (Fatal msg)"
      using parse_route_not_ok [of lib d] by auto
    then show ?thesis by simp
  qed
qed

lemma parse_ok: "content_ok lib root \<Longrightarrow> \<exists>c'. parse lib c root = Inr c'"
  by (simp add: content_ok_def parse_def parse_directives_ok)

lemma parse_not_ok: "\<not> content_ok lib root \<Longrightarrow> \<exists>msg. parse lib c root = Inl (Fatal msg)"
  by (simp add: content_ok_def parse_def parse_directives_not_ok)

subsection \<open>Prefixes and the addresses they contain\<close>




lemma To4_length: "To4 ip = Some v4 \<Longrightarrow> length v4 = 4"
  by (auto simp: To4_def split: if_splits)

lemma To4_None_length: "To4 ip = None \<Longrightarrow> length ip \<noteq> 4"
  by (auto simp: To4_def split: if_splits)

lemma list_all_upt: "list_all P [0..<n] = (\<forall>i<n. P i)"
  by (auto simp: list_all_iff)




text \<open>The two prefixes of the default deny: \<open>all4\<close> contains every IPv4 address, \<open>all6\<close> every
  other address of sixteen bytes.\<close>

lemma byte_and_zero: "(x :: byte) AND 0 = 0"
  by simp

lemma all4_contains: "Contains all4 x = (To4 x \<noteq> None)"
proof -
  have m: "CIDRMask 0 32 = replicate 4 0" by code_simp
  have t: "To4 (replicate 4 0) = Some (replicate 4 0)" by (simp add: To4_def)
  have nn: "networkNumberAndMask all4 = (replicate 4 0, replicate 4 0)"
    by (simp add: networkNumberAndMask_def all4_def m t Let_def)
  show ?thesis
  proof (cases "To4 x")
    case None
    then have "length x \<noteq> 4" by (rule To4_None_length)
    with None nn show ?thesis by (simp add: Contains_def)
  next
    case (Some y)
    then have "length y = 4" by (rule To4_length)
    with Some nn show ?thesis by (simp add: Contains_def list_all_upt)
  qed
qed

lemma all6_contains: "Contains all6 x = (To4 x = None \<and> length x = 16)"
proof -
  have m: "CIDRMask 0 128 = replicate 16 0" by code_simp
  have t: "To4 (replicate 16 0) = None" by code_simp
  have nn: "networkNumberAndMask all6 = (replicate 16 0, replicate 16 0)"
    by (simp add: networkNumberAndMask_def all6_def m t Let_def)
  show ?thesis
  proof (cases "To4 x")
    case None
    with nn show ?thesis by (simp add: Contains_def list_all_upt)
  next
    case (Some y)
    then have "length y = 4" by (rule To4_length)
    with Some nn show ?thesis by (simp add: Contains_def)
  qed
qed

section \<open>Properties of the host matchers\<close>

subsection \<open>The text of the expression\<close>








subsection \<open>Compiling the text\<close>














subsection \<open>Matching\<close>








subsection \<open>The matcher without anchors\<close>







section \<open>The claims\<close>

lemma example_parse: "parse model_lib \<lparr>Routes = []\<rparr> example_root = Inr example_config"
  by code_simp

text \<open>
  Claim C7. A load that succeeds appends to \<open>Routes\<close> exactly one route for each top-level
  directive, in the order of the directives; the route of a directive is the one \<open>parse_route\<close>
  builds from it, its \<open>Domains\<close> are the matchers compiled from the comma-separated elements
  of the directive's name, one for each element and in the order written, and they are never
  empty.
\<close>

theorem parse_one_route_per_directive:
  assumes "parse lib c root = Inr c'"
  shows "\<exists>rs. Routes c' = Routes c @ rs \<and>
           list_all2 (\<lambda>r d. parse_route lib d = Inr r \<and>
                        map Inr (Domains r) = map (domain2Regex lib) (Split (Name d) CHR '','') \<and>
                        Domains r \<noteq> [])
             rs (Directives root)"
proof -
  from assms have "parse_directives lib c (Directives root) = Inr c'"
    by (simp add: parse_def)
  from parse_directives_Inr [OF this] obtain rs where
    c': "c' = c\<lparr>Routes := Routes c @ rs\<rparr>"
    and m: "map (parse_route lib) (Directives root) = map Inr rs" by blast
  have "list_all2 (\<lambda>r d. parse_route lib d = Inr r \<and>
                        map Inr (Domains r) = map (domain2Regex lib) (Split (Name d) CHR '','') \<and>
                        Domains r \<noteq> []) rs (Directives root)"
    by (rule map_eq_list_all2 [OF m]) (simp add: parse_route_Inr)
  with c' show ?thesis by simp
qed

theorem parse_one_route_per_directive_witness:
  "parse model_lib \<lparr>Routes = []\<rparr> example_root = Inr example_config \<and>
   (\<exists>rs. Routes example_config = Routes \<lparr>Routes = []\<rparr> @ rs \<and>
      list_all2 (\<lambda>r d. parse_route model_lib d = Inr r \<and>
                   map Inr (Domains r) = map (domain2Regex model_lib) (Split (Name d) CHR '','') \<and>
                   Domains r \<noteq> [])
        rs (Directives example_root))"
  using example_parse parse_one_route_per_directive [OF example_parse] by (rule conjI)

text \<open>
  Claim C5, amended. For a \<open>backend\<close> or \<open>acme\<close> directive with exactly one argument whose
  descriptor is built, the address is that argument; the PROXY variant is \<open>ProxyNone\<close> when the
  nested block has neither \<open>send-proxy\<close> nor \<open>send-proxy-v2\<close>, and otherwise it is decided by
  the last of them in the block: \<open>ProxyV1\<close> when that is \<open>send-proxy\<close>, \<open>ProxyV2\<close> when it is
  \<open>send-proxy-v2\<close>. The variant is one of the three, and the route receives the descriptor as
  its \<open>Backend\<close> or its \<open>ACME\<close>.
\<close>

theorem backend_descriptor:
  assumes "length (Args d) = 1" and "parseBackend d = Inr b"
  shows "Address b = Args d ! 0 \<and>
         SendProxy b = (if proxy_children d = [] then ProxyNone
                        else if Name (last (proxy_children d)) = ''send-proxy'' then ProxyV1
                        else ProxyV2) \<and>
         SendProxy b \<in> {ProxyNone, ProxyV1, ProxyV2} \<and>
         (Name d = ''backend'' \<longrightarrow> route_directive lib route d = Inr (route\<lparr>Backend := Some b\<rparr>)) \<and>
         (Name d = ''acme'' \<longrightarrow> route_directive lib route d = Inr (route\<lparr>ACME := Some b\<rparr>))"
proof -
  from assms have ok: "backend_block_ok d"
    and b: "b = \<lparr>Address = Args d ! 0,
                 SendProxy = (if proxy_children d = [] then ProxyNone
                              else if Name (last (proxy_children d)) = ''send-proxy'' then ProxyV1
                              else ProxyV2)\<rparr>"
    by (auto simp: parseBackend_eq split: if_splits)
  have 1: "Address b = Args d ! 0" using b by simp
  have 2: "SendProxy b = (if proxy_children d = [] then ProxyNone
                        else if Name (last (proxy_children d)) = ''send-proxy'' then ProxyV1
                        else ProxyV2)" using b by simp
  have 3: "SendProxy b \<in> {ProxyNone, ProxyV1, ProxyV2}" using 2 by simp
  have 4: "Name d = ''backend'' \<longrightarrow> route_directive lib route d = Inr (route\<lparr>Backend := Some b\<rparr>)"
    using assms by (simp add: route_directive_def)
  have 5: "Name d = ''acme'' \<longrightarrow> route_directive lib route d = Inr (route\<lparr>ACME := Some b\<rparr>)"
    using assms by (simp add: route_directive_def)
  from 1 2 3 4 5 show ?thesis by blast
qed

text \<open>
  The claim as stated fails on a block that holds both directives: it contains \<open>send-proxy\<close>,
  and the variant is \<open>ProxyV2\<close>.
\<close>

theorem backend_both_proxy_directives_counterexample:
  "length (Args (Directive ''backend'' [''127.0.0.1:9000'']
                   [Directive ''send-proxy'' [] [], Directive ''send-proxy-v2'' [] []])) = 1 \<and>
   Directive ''send-proxy'' [] [] \<in>
     set (Directives (Directive ''backend'' [''127.0.0.1:9000'']
                        [Directive ''send-proxy'' [] [], Directive ''send-proxy-v2'' [] []])) \<and>
   parseBackend (Directive ''backend'' [''127.0.0.1:9000'']
                   [Directive ''send-proxy'' [] [], Directive ''send-proxy-v2'' [] []])
     = Inr \<lparr>Address = ''127.0.0.1:9000'', SendProxy = ProxyV2\<rparr> \<and>
   ProxyV2 \<noteq> ProxyV1"
  by (simp add: parseBackend_def ProxyV1_def ProxyV2_def ProxyNone_def)

theorem backend_descriptor_witness:
  "length (Args (Directive ''backend'' [''127.0.0.1:9000''] [Directive ''send-proxy'' [] []])) = 1 \<and>
   parseBackend (Directive ''backend'' [''127.0.0.1:9000''] [Directive ''send-proxy'' [] []])
     = Inr \<lparr>Address = ''127.0.0.1:9000'', SendProxy = ProxyV1\<rparr> \<and>
   SendProxy \<lparr>Address = ''127.0.0.1:9000'', SendProxy = ProxyV1\<rparr> = ProxyV1 \<and>
   route_directive model_lib empty_Route
       (Directive ''backend'' [''127.0.0.1:9000''] [Directive ''send-proxy'' [] []])
     = Inr (empty_Route\<lparr>Backend := Some \<lparr>Address = ''127.0.0.1:9000'', SendProxy = ProxyV1\<rparr>\<rparr>)"
proof -
  let ?d = "Directive ''backend'' [''127.0.0.1:9000''] [Directive ''send-proxy'' [] []]"
  let ?b = "\<lparr>Address = ''127.0.0.1:9000'', SendProxy = ProxyV1\<rparr>"
  have l: "length (Args ?d) = 1" by simp
  have p: "parseBackend ?d = Inr ?b" by (simp add: parseBackend_def)
  from backend_descriptor [OF l p, of model_lib empty_Route] l p show ?thesis
    by (simp add: proxy_children_def is_proxy_directive_def)
qed

text \<open>
  Claim C2. After a load that succeeds, every route it appended whose \<open>Allow\<close> list is not empty
  has the deny list declared by its \<open>deny\<close> directives followed by \<open>0.0.0.0/0\<close> and \<open>::/0\<close>, so
  that both are in \<open>Deny\<close>; every route whose \<open>Allow\<close> list is empty has exactly the deny list
  its \<open>deny\<close> directives declare.
\<close>

theorem default_deny_at_load:
  assumes "parse lib c root = Inr c'"
  shows "\<exists>rs. Routes c' = Routes c @ rs \<and>
           list_all2 (\<lambda>r d.
               (if Allow r = []
                then map Inr (Deny r) = directive_ranges lib ''deny'' (Directives d)
                else map Inr (Deny r) = directive_ranges lib ''deny'' (Directives d) @ [Inr all4, Inr all6]
                     \<and> all4 \<in> set (Deny r) \<and> all6 \<in> set (Deny r)))
             rs (Directives root)"
proof -
  from assms have "parse_directives lib c (Directives root) = Inr c'"
    by (simp add: parse_def)
  from parse_directives_Inr [OF this] obtain rs where
    c': "c' = c\<lparr>Routes := Routes c @ rs\<rparr>"
    and m: "map (parse_route lib) (Directives root) = map Inr rs" by blast
  have step: "(if Allow r = []
                then map Inr (Deny r) = directive_ranges lib ''deny'' (Directives d)
                else map Inr (Deny r) = directive_ranges lib ''deny'' (Directives d) @ [Inr all4, Inr all6]
                     \<and> all4 \<in> set (Deny r) \<and> all6 \<in> set (Deny r))"
    if p: "parse_route lib d = Inr r" for d r
  proof (cases "Allow r = []")
    case True
    then show ?thesis using parse_route_Inr(4) [OF p] by simp
  next
    case False
    then have e: "map Inr (Deny r) = directive_ranges lib ''deny'' (Directives d) @ [Inr all4, Inr all6]"
      using parse_route_Inr(4) [OF p] by simp
    have "Inr all4 \<in> set (map Inr (Deny r) :: (abort + IPNet) list)"
      and "Inr all6 \<in> set (map Inr (Deny r) :: (abort + IPNet) list)"
      unfolding e by simp_all
    then have "all4 \<in> set (Deny r)" "all6 \<in> set (Deny r)" by auto
    with False e show ?thesis by simp
  qed
  have "list_all2 (\<lambda>r d.
               (if Allow r = []
                then map Inr (Deny r) = directive_ranges lib ''deny'' (Directives d)
                else map Inr (Deny r) = directive_ranges lib ''deny'' (Directives d) @ [Inr all4, Inr all6]
                     \<and> all4 \<in> set (Deny r) \<and> all6 \<in> set (Deny r))) rs (Directives root)"
    by (rule map_eq_list_all2 [OF m]) (rule step)
  with c' show ?thesis by simp
qed

theorem default_deny_at_load_witness:
  "parse model_lib \<lparr>Routes = []\<rparr> example_root = Inr example_config \<and>
   (\<exists>rs. Routes example_config = Routes \<lparr>Routes = []\<rparr> @ rs \<and>
      list_all2 (\<lambda>r d.
          (if Allow r = []
           then map Inr (Deny r) = directive_ranges model_lib ''deny'' (Directives d)
           else map Inr (Deny r) = directive_ranges model_lib ''deny'' (Directives d) @ [Inr all4, Inr all6]
                \<and> all4 \<in> set (Deny r) \<and> all6 \<in> set (Deny r)))
        rs (Directives example_root))"
  using example_parse default_deny_at_load [OF example_parse] by (rule conjI)

text \<open>
  Claim C6. In the block of a route, a \<open>backend\<close>, \<open>acme\<close>, \<open>deny\<close> or \<open>allow\<close> directive whose
  number of arguments is not one ends the load with \<open>log.Fatal\<close>, and so does a \<open>send-proxy\<close> or
  \<open>send-proxy-v2\<close> with an argument in the block of a \<open>backend\<close> or \<open>acme\<close>. A directive of a
  route's block with any other name leaves the route as it is, and a directive of a backend's
  block with any other name leaves the descriptor as it is: the loops go on as if it were
  not there.
\<close>

theorem malformed_arity_fatal_unknown_ignored:
  "(d \<in> set (Directives root) \<and> dir \<in> set (Directives d) \<and>
      Name dir \<in> {''backend'', ''acme'', ''deny'', ''allow''} \<and> length (Args dir) \<noteq> 1
      \<longrightarrow> (\<exists>msg. parse lib c root = Inl (Fatal msg))) \<and>
   (d \<in> set (Directives root) \<and> dir \<in> set (Directives d) \<and>
      Name dir \<in> {''backend'', ''acme''} \<and> x \<in> set (Directives dir) \<and>
      Name x \<in> {''send-proxy'', ''send-proxy-v2''} \<and> Args x \<noteq> []
      \<longrightarrow> (\<exists>msg. parse lib c root = Inl (Fatal msg))) \<and>
   (Name dir \<notin> {''backend'', ''acme'', ''deny'', ''allow''}
      \<longrightarrow> route_directive lib route dir = Inr route \<and>
          route_directives lib route (dir # rest) = route_directives lib route rest) \<and>
   (Name x \<notin> {''send-proxy'', ''send-proxy-v2''}
      \<longrightarrow> backend_directives b (x # xs) = backend_directives b xs)"
proof -
  have fatal: "\<exists>msg. parse lib c root = Inl (Fatal msg)"
    if d: "d \<in> set (Directives root)" and dir: "dir \<in> set (Directives d)"
      and bad: "\<not> directive_ok lib dir" for dir
  proof -
    from dir bad have "\<not> list_all (directive_ok lib) (Directives d)"
      by (auto simp: list_all_iff)
    then have "\<not> route_ok lib d" by (simp add: route_ok_def)
    with d have "\<not> content_ok lib root" by (auto simp: content_ok_def list_all_iff)
    then show ?thesis by (rule parse_not_ok)
  qed
  have 1: "d \<in> set (Directives root) \<and> dir \<in> set (Directives d) \<and>
      Name dir \<in> {''backend'', ''acme'', ''deny'', ''allow''} \<and> length (Args dir) \<noteq> 1
      \<longrightarrow> (\<exists>msg. parse lib c root = Inl (Fatal msg))"
  proof (intro impI, elim conjE)
    assume d: "d \<in> set (Directives root)" and dir: "dir \<in> set (Directives d)"
      and n: "Name dir \<in> {''backend'', ''acme'', ''deny'', ''allow''}" and a: "length (Args dir) \<noteq> 1"
    from n a have "\<not> directive_ok lib dir" by (auto simp: directive_ok_def)
    with d dir show "\<exists>msg. parse lib c root = Inl (Fatal msg)" by (rule fatal)
  qed
  have 2: "d \<in> set (Directives root) \<and> dir \<in> set (Directives d) \<and>
      Name dir \<in> {''backend'', ''acme''} \<and> x \<in> set (Directives dir) \<and>
      Name x \<in> {''send-proxy'', ''send-proxy-v2''} \<and> Args x \<noteq> []
      \<longrightarrow> (\<exists>msg. parse lib c root = Inl (Fatal msg))"
  proof (intro impI, elim conjE)
    assume d: "d \<in> set (Directives root)" and dir: "dir \<in> set (Directives d)"
      and n: "Name dir \<in> {''backend'', ''acme''}" and x: "x \<in> set (Directives dir)"
      and nx: "Name x \<in> {''send-proxy'', ''send-proxy-v2''}" and a: "Args x \<noteq> []"
    from nx have "is_proxy_directive x" by (auto simp: is_proxy_directive_def)
    with x have "x \<in> set (proxy_children dir)" by (simp add: proxy_children_def)
    with a have "\<not> backend_block_ok dir" by (auto simp: backend_block_ok_def list_all_iff)
    with n have "\<not> directive_ok lib dir" by (auto simp: directive_ok_def)
    with d dir show "\<exists>msg. parse lib c root = Inl (Fatal msg)" by (rule fatal)
  qed
  have 3: "Name dir \<notin> {''backend'', ''acme'', ''deny'', ''allow''}
      \<longrightarrow> route_directive lib route dir = Inr route \<and>
          route_directives lib route (dir # rest) = route_directives lib route rest"
    by (simp add: route_directive_def)
  have 4: "Name x \<notin> {''send-proxy'', ''send-proxy-v2''}
      \<longrightarrow> backend_directives b (x # xs) = backend_directives b xs"
    by simp
  from 1 2 3 4 show ?thesis by blast
qed

theorem malformed_arity_fatal_unknown_ignored_witness:
  "(\<exists>msg. parse model_lib \<lparr>Routes = []\<rparr>
            (Directive [] [] [Directive ''a'' [] [Directive ''deny'' [''10.0.0.0/8'', ''10.1.0.0/16''] []]])
          = Inl (Fatal msg)) \<and>
   (\<exists>msg. parse model_lib \<lparr>Routes = []\<rparr>
            (Directive [] [] [Directive ''a'' []
               [Directive ''backend'' [''h:1''] [Directive ''send-proxy'' [''x''] []]]])
          = Inl (Fatal msg)) \<and>
   route_directive model_lib empty_Route (Directive ''frob'' [''x'', ''y''] []) = Inr empty_Route \<and>
   backend_directives \<lparr>Address = ''h:1'', SendProxy = ProxyNone\<rparr> [Directive ''weight'' [''3''] []]
     = Inr \<lparr>Address = ''h:1'', SendProxy = ProxyNone\<rparr>"
proof -
  let ?deny = "Directive ''deny'' [''10.0.0.0/8'', ''10.1.0.0/16''] []"
  let ?sp = "Directive ''send-proxy'' [''x''] []"
  let ?backend = "Directive ''backend'' [''h:1''] [?sp]"
  let ?frob = "Directive ''frob'' [''x'', ''y''] []"
  let ?weight = "Directive ''weight'' [''3''] []"
  let ?b = "\<lparr>Address = ''h:1'', SendProxy = ProxyNone\<rparr>"
  have 1: "\<exists>msg. parse model_lib \<lparr>Routes = []\<rparr> (Directive [] [] [Directive ''a'' [] [?deny]])
             = Inl (Fatal msg)"
    using malformed_arity_fatal_unknown_ignored
      [where d = "Directive ''a'' [] [?deny]" and dir = ?deny
         and root = "Directive [] [] [Directive ''a'' [] [?deny]]"
         and lib = model_lib and c = "\<lparr>Routes = []\<rparr>"]
    by simp
  have 2: "\<exists>msg. parse model_lib \<lparr>Routes = []\<rparr> (Directive [] [] [Directive ''a'' [] [?backend]])
             = Inl (Fatal msg)"
    using malformed_arity_fatal_unknown_ignored
      [where d = "Directive ''a'' [] [?backend]" and dir = ?backend and x = ?sp
         and root = "Directive [] [] [Directive ''a'' [] [?backend]]"
         and lib = model_lib and c = "\<lparr>Routes = []\<rparr>"]
    by simp
  have 3: "route_directive model_lib empty_Route ?frob = Inr empty_Route"
    using malformed_arity_fatal_unknown_ignored
      [where dir = ?frob and lib = model_lib and route = empty_Route]
    by simp
  have 4: "backend_directives ?b [?weight] = Inr ?b"
    using malformed_arity_fatal_unknown_ignored [where x = ?weight and b = ?b and xs = "[]"]
    by simp
  from 1 2 3 4 show ?thesis by blast
qed

text \<open>
  Claim C9. \<open>ReadFile\<close> returns an error exactly when the file cannot be opened, and the error
  it returns is the one of \<open>os.Open\<close>, with the configuration untouched. When the file opens and
  its content has one of the errors the loader looks for (a domain that does not compile, a
  subnet that is neither a prefix nor an address, a directive with the wrong number of
  arguments), \<open>ReadFile\<close> does not return: the process ends in \<open>log.Fatal\<close>. When the content has
  none, \<open>ReadFile\<close> returns \<open>nil\<close>.
\<close>

theorem ReadFile_returns_only_open_errors:
  "((\<exists>c' e. ReadFile lib parseDirective c path = Inr (c', Some e)) = (\<exists>e. Open lib path = Inl e)) \<and>
   (ReadFile lib parseDirective c path = Inr (cfg, Some e) \<longrightarrow> Open lib path = Inl e \<and> cfg = c) \<and>
   (Open lib path = Inr f \<and> parseDirective f = Inr root \<and> \<not> content_ok lib root
      \<longrightarrow> (\<exists>msg. ReadFile lib parseDirective c path = Inl (Fatal msg))) \<and>
   (Open lib path = Inr f \<and> parseDirective f = Inr root \<and> content_ok lib root
      \<longrightarrow> (\<exists>c'. ReadFile lib parseDirective c path = Inr (c', None)))"
proof -
  have 1: "(\<exists>c' e. ReadFile lib parseDirective c path = Inr (c', Some e)) = (\<exists>e. Open lib path = Inl e)"
    by (auto simp: ReadFile_def split: sum.splits)
  have 2: "ReadFile lib parseDirective c path = Inr (cfg, Some e) \<longrightarrow> Open lib path = Inl e \<and> cfg = c"
    by (auto simp: ReadFile_def split: sum.splits)
  have 3: "Open lib path = Inr f \<and> parseDirective f = Inr root \<and> \<not> content_ok lib root
      \<longrightarrow> (\<exists>msg. ReadFile lib parseDirective c path = Inl (Fatal msg))"
  proof (intro impI, elim conjE)
    assume o: "Open lib path = Inr f" and p: "parseDirective f = Inr root"
      and n: "\<not> content_ok lib root"
    from parse_not_ok [OF n, of c] obtain msg where "parse lib c root = Inl (Fatal msg)" by blast
    with o p show "\<exists>msg. ReadFile lib parseDirective c path = Inl (Fatal msg)"
      by (simp add: ReadFile_def)
  qed
  have 4: "Open lib path = Inr f \<and> parseDirective f = Inr root \<and> content_ok lib root
      \<longrightarrow> (\<exists>c'. ReadFile lib parseDirective c path = Inr (c', None))"
  proof (intro impI, elim conjE)
    assume o: "Open lib path = Inr f" and p: "parseDirective f = Inr root"
      and n: "content_ok lib root"
    from parse_ok [OF n, of c] obtain c' where "parse lib c root = Inr c'" by blast
    with o p show "\<exists>c'. ReadFile lib parseDirective c path = Inr (c', None)"
      by (simp add: ReadFile_def)
  qed
  from 1 2 3 4 show ?thesis by blast
qed

theorem ReadFile_returns_only_open_errors_witness:
  "ReadFile model_lib model_parseDirective \<lparr>Routes = []\<rparr> ''missing.conf''
     = Inr (\<lparr>Routes = []\<rparr>, Some None) \<and>
   Open model_lib ''missing.conf'' = Inl None \<and>
   (\<exists>msg. ReadFile model_lib model_parseDirective \<lparr>Routes = []\<rparr> ''broken.conf'' = Inl (Fatal msg)) \<and>
   (\<exists>c'. ReadFile model_lib model_parseDirective \<lparr>Routes = []\<rparr> ''sniproxy.conf'' = Inr (c', None))"
proof -
  let ?good = "Directive [] [] [Directive ''example.com'' [] [Directive ''backend'' [''127.0.0.1:9000''] []]]"
  let ?bad = "Directive [] [] [Directive ''example.com'' [] [Directive ''backend'' [] []]]"
  have o: "Open model_lib ''missing.conf'' = Inl None"
    "Open model_lib ''broken.conf'' = Inr ''example.com { backend }''"
    "Open model_lib ''sniproxy.conf'' = Inr example_file"
    by (simp_all add: model_lib_def)
  have p: "model_parseDirective ''example.com { backend }'' = Inr ?bad"
    "model_parseDirective example_file = Inr ?good"
    by (simp_all add: model_parseDirective_def example_file_def)
  have ok: "content_ok model_lib ?good" by code_simp
  have bad: "\<not> content_ok model_lib ?bad" by code_simp
  have r: "ReadFile model_lib model_parseDirective \<lparr>Routes = []\<rparr> ''missing.conf''
             = Inr (\<lparr>Routes = []\<rparr>, Some None)"
    using o by (simp add: ReadFile_def)
  have 1: "Open model_lib ''missing.conf'' = Inl None"
    using ReadFile_returns_only_open_errors [where lib = model_lib
        and parseDirective = model_parseDirective and c = "\<lparr>Routes = []\<rparr>"
        and path = "''missing.conf''" and cfg = "\<lparr>Routes = []\<rparr>" and e = "None"] r
    by simp
  have 2: "\<exists>msg. ReadFile model_lib model_parseDirective \<lparr>Routes = []\<rparr> ''broken.conf'' = Inl (Fatal msg)"
    using ReadFile_returns_only_open_errors [where lib = model_lib
        and parseDirective = model_parseDirective and c = "\<lparr>Routes = []\<rparr>"
        and path = "''broken.conf''" and f = "''example.com { backend }''" and root = "?bad"] o p bad
    by simp
  have 3: "\<exists>c'. ReadFile model_lib model_parseDirective \<lparr>Routes = []\<rparr> ''sniproxy.conf'' = Inr (c', None)"
    using ReadFile_returns_only_open_errors [where lib = model_lib
        and parseDirective = model_parseDirective and c = "\<lparr>Routes = []\<rparr>"
        and path = "''sniproxy.conf''" and f = example_file and root = "?good"] o p ok
    by simp
  from r 1 2 3 show ?thesis by blast
qed

text \<open>
  Claim C8. With an empty \<open>-conf\<close>, \<open>main\<close> ends the process with a message; when the file
  cannot be opened, \<open>ReadFile\<close> returns the error and \<open>main\<close> ends the process with a message;
  the status of \<open>log.Fatal\<close> is 1. When \<open>-conf\<close> is given and \<open>ReadFile\<close> returns \<open>nil\<close>, \<open>main\<close>
  goes on to its listeners with the configuration read.
\<close>

theorem main_exits_or_listens:
  "(conf = [] \<longrightarrow> main lib parseDirective conf bind = Inl (Fatal ''No config provided. Aborting.'')) \<and>
   (conf \<noteq> [] \<and> Open lib conf = Inl e
      \<longrightarrow> main lib parseDirective conf bind =
            Inl (Fatal (''Could not read config '' @ Quote lib conf @ '' ('' @ Error lib e @ '')''))) \<and>
   (\<forall>msg. exit_status (Fatal msg) = 1) \<and>
   (conf \<noteq> [] \<and> ReadFile lib parseDirective \<lparr>Routes = []\<rparr> conf = Inr (c, None)
      \<longrightarrow> main lib parseDirective conf bind = Inr (c, bind)) \<and>
   (conf \<noteq> [] \<and> Open lib conf = Inr f \<and> parseDirective f = Inr root \<and> content_ok lib root
      \<longrightarrow> (\<exists>cfg. main lib parseDirective conf bind = Inr (cfg, bind)))"
proof -
  have 1: "conf = [] \<longrightarrow>
             main lib parseDirective conf bind = Inl (Fatal ''No config provided. Aborting.'')"
    by (simp add: main_def)
  have 2: "conf \<noteq> [] \<and> Open lib conf = Inl e
      \<longrightarrow> main lib parseDirective conf bind =
            Inl (Fatal (''Could not read config '' @ Quote lib conf @ '' ('' @ Error lib e @ '')''))"
    by (simp add: main_def ReadFile_def)
  have 3: "\<forall>msg. exit_status (Fatal msg) = 1" by simp
  have 4: "conf \<noteq> [] \<and> ReadFile lib parseDirective \<lparr>Routes = []\<rparr> conf = Inr (c, None)
      \<longrightarrow> main lib parseDirective conf bind = Inr (c, bind)"
    by (simp add: main_def)
  have 5: "conf \<noteq> [] \<and> Open lib conf = Inr f \<and> parseDirective f = Inr root \<and> content_ok lib root
      \<longrightarrow> (\<exists>cfg. main lib parseDirective conf bind = Inr (cfg, bind))"
  proof (intro impI, elim conjE)
    assume n: "conf \<noteq> []" and o: "Open lib conf = Inr f" and p: "parseDirective f = Inr root"
      and ok: "content_ok lib root"
    from parse_ok [OF ok, of "\<lparr>Routes = []\<rparr>"] obtain cfg where
      "parse lib \<lparr>Routes = []\<rparr> root = Inr cfg" by blast
    with n o p have "main lib parseDirective conf bind = Inr (cfg, bind)"
      by (simp add: main_def ReadFile_def)
    then show "\<exists>cfg. main lib parseDirective conf bind = Inr (cfg, bind)" by blast
  qed
  from 1 2 3 4 5 show ?thesis by blast
qed

theorem main_exits_or_listens_witness:
  "main model_lib model_parseDirective [] '':443'' = Inl (Fatal ''No config provided. Aborting.'') \<and>
   main model_lib model_parseDirective ''missing.conf'' '':443''
     = Inl (Fatal (''Could not read config '' @ Quote model_lib ''missing.conf''
                     @ '' ('' @ Error model_lib None @ '')'')) \<and>
   exit_status (Fatal ''No config provided. Aborting.'') = 1 \<and>
   (\<exists>cfg. main model_lib model_parseDirective ''sniproxy.conf'' '':443'' = Inr (cfg, '':443''))"
proof -
  let ?good = "Directive [] [] [Directive ''example.com'' [] [Directive ''backend'' [''127.0.0.1:9000''] []]]"
  have o: "Open model_lib ''missing.conf'' = Inl None"
    "Open model_lib ''sniproxy.conf'' = Inr example_file"
    by (simp_all add: model_lib_def)
  have p: "model_parseDirective example_file = Inr ?good"
    by (simp add: model_parseDirective_def)
  have ok: "content_ok model_lib ?good" by code_simp
  have 1: "main model_lib model_parseDirective [] '':443'' = Inl (Fatal ''No config provided. Aborting.'')"
    using main_exits_or_listens [where lib = model_lib and parseDirective = model_parseDirective
        and conf = "[]" and bind = "'':443''"]
    by simp
  have 2: "main model_lib model_parseDirective ''missing.conf'' '':443''
     = Inl (Fatal (''Could not read config '' @ Quote model_lib ''missing.conf''
                     @ '' ('' @ Error model_lib None @ '')''))"
    using main_exits_or_listens [where lib = model_lib and parseDirective = model_parseDirective
        and conf = "''missing.conf''" and bind = "'':443''" and e = "None"] o
    by simp
  have 3: "exit_status (Fatal ''No config provided. Aborting.'') = 1"
    using main_exits_or_listens [where lib = model_lib and parseDirective = model_parseDirective
        and conf = "[]" and bind = "'':443''"]
    by simp
  have 4: "\<exists>cfg. main model_lib model_parseDirective ''sniproxy.conf'' '':443'' = Inr (cfg, '':443'')"
    using main_exits_or_listens [where lib = model_lib and parseDirective = model_parseDirective
        and conf = "''sniproxy.conf''" and bind = "'':443''" and f = example_file and root = "?good"]
      o p ok
    by simp
  from 1 2 3 4 show ?thesis by blast
qed









text \<open>
  Why the patterns of the theorem have no byte with a meaning in the syntax: such a byte is
  appended as it is and keeps its meaning. In the pattern \<open>a+\<close> the \<open>+\<close> repeats the \<open>a\<close>, and
  the pattern \<open>*+\<close> is the expression \<open>^.*+$\<close>, which does not compile, so that the load ends.
\<close>

lemma plus_is_an_operator:
  "domain2Regex model_lib ''a+'' = Inr [OpBeginText, OpPlus (Literal CHR ''a''), OpEndText] \<and>
   MatchString [OpBeginText, OpPlus (Literal CHR ''a''), OpEndText] ''aa'' \<and>
   \<not> MatchString [OpBeginText, OpPlus (Literal CHR ''a''), OpEndText] ''a+''"
  by code_simp

lemma nested_repetition_is_fatal:
  "domain2Regex model_lib ''*+'' = Inl (Some ErrInvalidRepeatOp) \<and>
   parse model_lib \<lparr>Routes = []\<rparr> (Directive [] [] [Directive ''*+'' [] []])
     = Inl (Fatal ''Invalid domain: *+'')"
  by code_simp


end
